theory Spec2Isabelle
  imports Main "HOL-Library.Finite_Map" "HOL-Library.Multiset"
begin

section \<open>Data model\<close>

text \<open>
  The program of \<^verbatim>\<open>friend_trackmania_leaderboard/main.py\<close> handles decoded JSON and YAML
  values. They are modelled as one datatype of plain Python data. A dictionary is a finite
  map, so that two dictionaries are equal exactly when Python's \<^verbatim>\<open>==\<close> says so (the order
  of insertion does not count); the payload dictionaries are only ever indexed by the
  program, never iterated. Non-integer numbers do not occur in the fields the program reads
  and are left out.

  A \<^verbatim>\<open>datetime\<close> is modelled by its position on the time line, an integer (all
  timestamps of one run are taken to be of one kind, offset-aware as the provider sends
  them, so that any two compare).
\<close>

type_synonym timestamp = int

datatype pyval =
    PNone
  | PBool bool
  | PInt int
  | PStr string
  | PTime timestamp
  | PList "pyval list"
  | PDict "(string, pyval) fmap"

text \<open>The exceptions the program raises or lets through.\<close>

datatype error =
    KeyError string
  | TypeError
  | ValueError
  | RuntimeError pyval
  | JSONDecodeError

text \<open>Sequencing of computations that may raise: the first exception wins.\<close>

definition and_then :: "error + 'a \<Rightarrow> ('a \<Rightarrow> error + 'b) \<Rightarrow> error + 'b" where
  "and_then r f = (case r of Inl e \<Rightarrow> Inl e | Inr v \<Rightarrow> f v)"

text \<open>\<^verbatim>\<open>d[k]\<close> with a string key: only a dictionary can be indexed so.\<close>

fun getitem :: "pyval \<Rightarrow> string \<Rightarrow> error + pyval" where
  "getitem (PDict d) k = (case fmlookup d k of None \<Rightarrow> Inl (KeyError k) | Some v \<Rightarrow> Inr v)"
| "getitem _ k = Inl TypeError"

text \<open>
  The typed boundary: the dataclass declares \<^verbatim>\<open>achievement_type: str\<close> and
  \<^verbatim>\<open>_sum_trophy_points\<close> declares \<^verbatim>\<open>counts: list[int]\<close>. A payload value of another
  type is a \<open>TypeError\<close> in the model, raised where the value is taken from the payload
  (Python, which does not check the annotations, would fail at the first use of the value,
  or carry it along).
\<close>

fun as_str :: "pyval \<Rightarrow> error + string" where
  "as_str (PStr s) = Inr s"
| "as_str _ = Inl TypeError"

fun as_int :: "pyval \<Rightarrow> error + int" where
  "as_int (PInt n) = Inr n"
| "as_int _ = Inl TypeError"

fun as_ints :: "pyval list \<Rightarrow> error + int list" where
  "as_ints [] = Inr []"
| "as_ints (v # vs) =
     and_then (as_int v) (\<lambda>n. and_then (as_ints vs) (\<lambda>ns. Inr (n # ns)))"

fun as_int_list :: "pyval \<Rightarrow> error + int list" where
  "as_int_list (PList vs) = as_ints vs"
| "as_int_list _ = Inl TypeError"

record TrophyData =
  timestamp :: timestamp
  achievement_type :: string
  count :: int
  data :: pyval

section \<open>Trophy records from gain payloads\<close>

text \<open>
  \<^verbatim>\<open>
  def _sum_trophy_points(counts: list[int]) -> int:
      expected_len = 9
      if len(counts) != expected_len:
          raise ValueError()
      return sum(counts[i] * 10**i for i in range(expected_len))
  \<close>
\<close>

definition sum_trophy_points :: "int list \<Rightarrow> error + int" where
  "sum_trophy_points counts =
     (let expected_len = 9 in
      if length counts \<noteq> expected_len then Inl ValueError
      else Inr (sum_list (map (\<lambda>i. counts ! i * 10 ^ i) [0..<expected_len])))"

text \<open>
  \<^verbatim>\<open>datetime.datetime.fromisoformat\<close> is the standard library's; it is a parameter of the
  model, \<open>None\<close> where it raises \<open>ValueError\<close> on a string that is no ISO-8601 date.
\<close>

definition parse_timestamp :: "(string \<Rightarrow> timestamp option) \<Rightarrow> pyval \<Rightarrow> error + timestamp" where
  "parse_timestamp fromisoformat v =
     (case v of
        PStr s \<Rightarrow> (case fromisoformat s of None \<Rightarrow> Inl ValueError | Some t \<Rightarrow> Inr t)
      | _ \<Rightarrow> Inl TypeError)"

text \<open>
  \<^verbatim>\<open>
  @classmethod
  def from_gain(cls, gain_data: dict):
      return cls(
          timestamp=datetime.datetime.fromisoformat(gain_data["timestamp"]),
          achievement_type=gain_data["achievement"]["trophyAchievementType"],
          count=_sum_trophy_points(gain_data["counts"]),
          data=gain_data,
      )
  \<close>
  The arguments are evaluated in the order written.
\<close>

definition from_gain :: "(string \<Rightarrow> timestamp option) \<Rightarrow> pyval \<Rightarrow> error + TrophyData" where
  "from_gain fromisoformat gain_data =
     and_then (and_then (getitem gain_data ''timestamp'') (parse_timestamp fromisoformat)) (\<lambda>ts.
     and_then (and_then (and_then (getitem gain_data ''achievement'')
                 (\<lambda>achieve. getitem achieve ''trophyAchievementType'')) as_str) (\<lambda>category.
     and_then (and_then (and_then (getitem gain_data ''counts'') as_int_list)
                 sum_trophy_points) (\<lambda>points.
     Inr \<lparr>timestamp = ts, achievement_type = category, count = points, data = gain_data\<rparr>)))"

text \<open>
  \<^verbatim>\<open>
  @staticmethod
  def categorize(gain_data: dict[str, Any]) -> str:
      achieve = gain_data["achievement"]
      category = achieve["trophyAchievementType"]
      match category:
          case "SoloRanking":
              return f"SoloRanking - {achieve['trophySoloRankingAchievementType']}"
          case _:
              return category
  \<close>
  No function of the program calls \<^verbatim>\<open>categorize\<close>.
\<close>

definition categorize :: "pyval \<Rightarrow> error + string" where
  "categorize gain_data =
     and_then (getitem gain_data ''achievement'') (\<lambda>achieve.
     and_then (getitem achieve ''trophyAchievementType'') (\<lambda>category.
       if category = PStr ''SoloRanking''
       then and_then (and_then (getitem achieve ''trophySoloRankingAchievementType'') as_str)
              (\<lambda>sub. Inr (''SoloRanking - '' @ sub))
       else as_str category))"

section \<open>Fetcher\<close>

text \<open>
  What \<^verbatim>\<open>requests.get\<close> returns, as far as the program looks at it: the flag
  \<^verbatim>\<open>resp.ok\<close> and what \<^verbatim>\<open>resp.json()\<close> gives: the decoded body, or \<open>None\<close> where
  the body is not JSON and the call raises \<open>JSONDecodeError\<close>.
\<close>

record response =
  ok :: bool
  json :: "pyval option"

text \<open>
  The inner loop \<^verbatim>\<open>for entry in data["gains"]: gains.append(TrophyData.from_gain(entry))\<close>.
  The gains of a page are a JSON list; a value of another type is a \<open>TypeError\<close> in the model.
\<close>

fun as_list :: "pyval \<Rightarrow> error + pyval list" where
  "as_list (PList vs) = Inr vs"
| "as_list _ = Inl TypeError"

fun append_gains ::
  "(string \<Rightarrow> timestamp option) \<Rightarrow> pyval list \<Rightarrow> TrophyData list \<Rightarrow> error + TrophyData list" where
  "append_gains fromisoformat [] gains = Inr gains"
| "append_gains fromisoformat (entry # entries) gains =
     and_then (from_gain fromisoformat entry)
       (\<lambda>trophy. append_gains fromisoformat entries (gains @ [trophy]))"

text \<open>
  \<^verbatim>\<open>len(gains) == num_gains\<close>: Python compares an integer with any value; it is equal only
  to a number of the same value (and \<^verbatim>\<open>True == 1\<close>, \<^verbatim>\<open>False == 0\<close>).
\<close>

definition len_equals :: "nat \<Rightarrow> pyval \<Rightarrow> bool" where
  "len_equals n v =
     (case v of
        PInt k \<Rightarrow> int n = k
      | PBool b \<Rightarrow> int n = (if b then 1 else 0)
      | _ \<Rightarrow> False)"

text \<open>
  \<^verbatim>\<open>
  def get_trophies(player_id, request_limit: int = 100) -> list[TrophyData]:
      ...
      gains = []
      for page in range(0, request_limit):
          resp = requests.get(url=f"{base_url}/{page}", headers=headers, data={})
          if not resp.ok:
              raise RuntimeError(f"Trophies request failed. Response: {resp.json()}")
          data = resp.json()
          num_gains = data["total"]
          for entry in data["gains"]:
              gains.append(TrophyData.from_gain(entry))
          if len(gains) == num_gains:
              break
      return gains
  \<close>
  The provider is the function \<open>get\<close> from the page number of the player's endpoint to the
  response. The requests made are an effect of the program: the model returns the list of
  the pages requested, in order, beside the result. The message of the \<open>RuntimeError\<close>
  is built from \<^verbatim>\<open>resp.json()\<close>: the call is made, and may raise, before the error is.
\<close>

fun fetch_loop ::
  "(string \<Rightarrow> timestamp option) \<Rightarrow> (nat \<Rightarrow> response) \<Rightarrow> nat list \<Rightarrow> nat list \<Rightarrow>
     TrophyData list \<Rightarrow> nat list \<times> (error + TrophyData list)" where
  "fetch_loop fromisoformat get [] requested gains = (requested, Inr gains)"
| "fetch_loop fromisoformat get (page # pages) requested gains =
     (let resp = get page; requested' = requested @ [page] in
      if \<not> ok resp then
        (case json resp of
           None \<Rightarrow> (requested', Inl JSONDecodeError)
         | Some body \<Rightarrow> (requested', Inl (RuntimeError body)))
      else
        (case json resp of
           None \<Rightarrow> (requested', Inl JSONDecodeError)
         | Some body \<Rightarrow>
            (case getitem body ''total'' of
               Inl e \<Rightarrow> (requested', Inl e)
             | Inr num_gains \<Rightarrow>
                (case and_then (and_then (getitem body ''gains'') as_list)
                        (\<lambda>entries. append_gains fromisoformat entries gains) of
                   Inl e \<Rightarrow> (requested', Inl e)
                 | Inr gains' \<Rightarrow>
                     if len_equals (length gains') num_gains then (requested', Inr gains')
                     else fetch_loop fromisoformat get pages requested' gains'))))"

definition default_request_limit :: nat where
  "default_request_limit = 100"

definition get_trophies ::
  "(string \<Rightarrow> timestamp option) \<Rightarrow> (nat \<Rightarrow> response) \<Rightarrow> nat \<Rightarrow>
     nat list \<times> (error + TrophyData list)" where
  "get_trophies fromisoformat get request_limit =
     fetch_loop fromisoformat get [0..<request_limit] [] []"

text \<open>
  A page as the specification describes it: a successful response that carries a total and
  a batch of gains, each of which decodes to a record.
\<close>

definition good_page ::
  "(string \<Rightarrow> timestamp option) \<Rightarrow> response \<Rightarrow> int \<Rightarrow> TrophyData list \<Rightarrow> bool" where
  "good_page fromisoformat resp reported recs \<longleftrightarrow>
     ok resp \<and>
     (case json resp of
        None \<Rightarrow> False
      | Some body \<Rightarrow>
          getitem body ''total'' = Inr (PInt reported) \<and>
          (case getitem body ''gains'' of
             Inr (PList entries) \<Rightarrow> map (from_gain fromisoformat) entries = map Inr recs
           | _ \<Rightarrow> False))"


section \<open>Cache\<close>

text \<open>
  \<^verbatim>\<open>dataclasses.asdict(trophy)\<close>: the dictionary of the declared fields.
\<close>

definition asdict :: "TrophyData \<Rightarrow> pyval" where
  "asdict trophy =
     PDict (fmap_of_list
       [(''timestamp'', PTime (timestamp trophy)),
        (''achievement_type'', PStr (achievement_type trophy)),
        (''count'', PInt (count trophy)),
        (''data'', data trophy)])"

text \<open>
  \<^verbatim>\<open>TrophyData(**trophy)\<close>: the generated constructor takes exactly the four declared
  fields as keywords; a missing or an unexpected keyword is a \<open>TypeError\<close>. (Python does not
  check the values against the annotations; the record type of the model does.)
\<close>

definition TrophyData_kwargs :: "pyval \<Rightarrow> error + TrophyData" where
  "TrophyData_kwargs trophy =
     (case trophy of
        PDict d \<Rightarrow>
          if fmdom d = {|''timestamp'', ''achievement_type'', ''count'', ''data''|}
          then
            (case (fmlookup d ''timestamp'', fmlookup d ''achievement_type'',
                   fmlookup d ''count'', fmlookup d ''data'') of
               (Some (PTime ts), Some (PStr a), Some (PInt c), Some gain_data) \<Rightarrow>
                 Inr \<lparr>timestamp = ts, achievement_type = a, count = c, data = gain_data\<rparr>
             | _ \<Rightarrow> Inl TypeError)
          else Inl TypeError
      | _ \<Rightarrow> Inl TypeError)"

fun trophies_of_dicts :: "pyval list \<Rightarrow> error + TrophyData list" where
  "trophies_of_dicts [] = Inr []"
| "trophies_of_dicts (trophy # rest) =
     and_then (TrophyData_kwargs trophy)
       (\<lambda>t. and_then (trophies_of_dicts rest) (\<lambda>ts. Inr (t # ts)))"

definition player_of_yaml :: "pyval \<Rightarrow> error + TrophyData list" where
  "player_of_yaml player_data = and_then (as_list player_data) trophies_of_dicts"

text \<open>
  The two branches of \<^verbatim>\<open>main\<close> around the cache file:
  \<^verbatim>\<open>
  yamlified = {
      player: [dataclasses.asdict(trophy) for trophy in player_trophies]
      for player, player_trophies in trophy_results.items()
  }
  yaml.dump(yamlified, out)
  \<close>
  and
  \<^verbatim>\<open>
  parsed_yaml = yaml.safe_load(yaml_in)
  trophy_results = {
      player: [TrophyData(**trophy) for trophy in player_data]
      for player, player_data in parsed_yaml.items()
  }
  \<close>
  \<^verbatim>\<open>yaml.dump\<close> and \<^verbatim>\<open>yaml.safe_load\<close> are PyYAML's; they are parameters of the model,
  from plain data to the text of the file and back. The dictionary of the players is a
  finite map here: the cache looks at it player by player, in no particular order.
\<close>

definition yamlified :: "(string, TrophyData list) fmap \<Rightarrow> pyval" where
  "yamlified trophy_results =
     PDict (fmmap (\<lambda>player_trophies. PList (map asdict player_trophies)) trophy_results)"

definition write_cache ::
  "(pyval \<Rightarrow> 'text) \<Rightarrow> (string, TrophyData list) fmap \<Rightarrow> 'text" where
  "write_cache yaml_dump trophy_results = yaml_dump (yamlified trophy_results)"

definition trophy_results_of_yaml :: "pyval \<Rightarrow> error + (string, TrophyData list) fmap" where
  "trophy_results_of_yaml parsed_yaml =
     (case parsed_yaml of
        PDict d \<Rightarrow>
          if fmpred (\<lambda>player player_data. \<not> isl (player_of_yaml player_data)) d
          then Inr (fmmap (\<lambda>player_data. projr (player_of_yaml player_data)) d)
          else Inl TypeError
      | _ \<Rightarrow> Inl TypeError)"

definition read_cache ::
  "('text \<Rightarrow> pyval) \<Rightarrow> 'text \<Rightarrow> error + (string, TrophyData list) fmap" where
  "read_cache yaml_safe_load cache_text = trophy_results_of_yaml (yaml_safe_load cache_text)"

section \<open>Aggregator and plotter\<close>

text \<open>
  A figure is modelled by its traces; a trace by its name (where it has one) and its
  \<open>x\<close> and \<open>y\<close> series. Python's \<^verbatim>\<open>sorted(..., key=...)\<close> is a stable sort, as
  \<^const>\<open>sort_key\<close> is. The dictionary of the players is iterated in its order of
  insertion: it is an association list here.
\<close>

text \<open>
  \<^verbatim>\<open>plot_trophies\<close> sorts the records of every player before it calls the three
  reducers:
  \<^verbatim>\<open>
  trophies_chronological = {
      player: sorted(trophies, key=lambda res: res.timestamp)
      for player, trophies in player_trophies.items()
  }
  \<close>
\<close>

definition trophies_chronological ::
  "(string \<times> TrophyData list) list \<Rightarrow> (string \<times> TrophyData list) list" where
  "trophies_chronological player_trophies =
     map (\<lambda>(player, trophies). (player, sort_key timestamp trophies)) player_trophies"

text \<open>
  \<^verbatim>\<open>np.cumsum\<close> of a list of Python integers. numpy stores the list as an array of signed
  64-bit integers when every element fits (64 bits is its default integer), and adds in
  that type: the arithmetic is modular and no error is raised on overflow. For a list with
  an element outside the 64-bit range numpy chooses another element type (unsigned,
  floating point or Python objects); that case is not modelled, the result is \<open>None\<close>.
\<close>

definition fits_int64 :: "int \<Rightarrow> bool" where
  "fits_int64 v \<longleftrightarrow> - (2 ^ 63) \<le> v \<and> v < 2 ^ 63"

definition wrap_int64 :: "int \<Rightarrow> int" where
  "wrap_int64 v = (v + 2 ^ 63) mod 2 ^ 64 - 2 ^ 63"

fun cumsum_from :: "int \<Rightarrow> int list \<Rightarrow> int list" where
  "cumsum_from acc [] = []"
| "cumsum_from acc (v # vs) = wrap_int64 (acc + v) # cumsum_from (wrap_int64 (acc + v)) vs"

definition cumsum :: "int list \<Rightarrow> int list option" where
  "cumsum vs = (if list_all fits_int64 vs then Some (cumsum_from 0 vs) else None)"

text \<open>The running (prefix) sums of a list, as the specification has them.\<close>

definition running_sums :: "int list \<Rightarrow> int list" where
  "running_sums vs = map (\<lambda>i. sum_list (take (Suc i) vs)) [0..<length vs]"

text \<open>
  \<^verbatim>\<open>
  def plot_cumulative_trophies(player_trophies):
      fig = go.Figure()
      for player, trophies in player_trophies.items():
          trophies_chronological = sorted(trophies, key=lambda res: res.timestamp)
          fig.add_trace(go.Scatter(
              x=[trophy.timestamp for trophy in trophies_chronological],
              y=np.cumsum([trophy.count for trophy in trophies_chronological]),
              name=player))
      return fig
  \<close>
\<close>

definition cumulative_trace :: "TrophyData list \<Rightarrow> timestamp list \<times> int list option" where
  "cumulative_trace trophies =
     (let trophies_chronological = sort_key timestamp trophies in
      (map timestamp trophies_chronological, cumsum (map count trophies_chronological)))"

definition plot_cumulative_trophies ::
  "(string \<times> TrophyData list) list \<Rightarrow>
     (string \<times> timestamp list \<times> int list option) list" where
  "plot_cumulative_trophies player_trophies =
     map (\<lambda>(player, trophies). (player, cumulative_trace trophies)) player_trophies"

text \<open>
  \<^verbatim>\<open>heapq.merge(a, b, key=...)\<close> of two iterables: it yields the smaller head each time,
  and the head of the first iterable when the keys are equal.
\<close>

fun heapq_merge :: "('a \<Rightarrow> 'k::linorder) \<Rightarrow> 'a list \<Rightarrow> 'a list \<Rightarrow> 'a list" where
  "heapq_merge key [] ys = ys"
| "heapq_merge key (x # xs) [] = x # xs"
| "heapq_merge key (x # xs) (y # ys) =
     (if key y < key x then y # heapq_merge key (x # xs) ys
      else x # heapq_merge key xs (y # ys))"

text \<open>
  \<^verbatim>\<open>
  def plot_race(player_trophies_chronological, player1, player2):
      player1_results = zip(itertools.repeat(0), player_trophies_chronological[player1])
      player2_results = zip(itertools.repeat(1), player_trophies_chronological[player2])
      sums = [0, 0]
      t = []
      deltas = []
      for player, trophy in heapq.merge(
          player1_results, player2_results, key=lambda v: v[1].timestamp
      ):
          sums[player] += trophy.count
          t.append(trophy.timestamp)
          deltas.append(sums[0] - sums[1])
      ... go.Scatter(x=t, y=deltas) ...
  \<close>
\<close>

fun race_loop ::
  "(nat \<times> TrophyData) list \<Rightarrow> int list \<Rightarrow> timestamp list \<Rightarrow> int list \<Rightarrow>
     timestamp list \<times> int list" where
  "race_loop [] sums t deltas = (t, deltas)"
| "race_loop ((player, trophy) # rest) sums t deltas =
     (let sums' = sums[player := sums ! player + count trophy] in
      race_loop rest sums' (t @ [timestamp trophy]) (deltas @ [sums' ! 0 - sums' ! 1]))"

definition race :: "TrophyData list \<Rightarrow> TrophyData list \<Rightarrow> timestamp list \<times> int list" where
  "race results1 results2 =
     (let player1_results = map (Pair 0) results1;
          player2_results = map (Pair (Suc 0)) results2
      in race_loop (heapq_merge (\<lambda>v. timestamp (snd v)) player1_results player2_results)
           [0, 0] [] [])"

definition plot_race ::
  "(string \<times> TrophyData list) list \<Rightarrow> string \<Rightarrow> string \<Rightarrow>
     error + timestamp list \<times> int list" where
  "plot_race player_trophies_chronological player1 player2 =
     (case map_of player_trophies_chronological player1 of
        None \<Rightarrow> Inl (KeyError player1)
      | Some results1 \<Rightarrow>
         (case map_of player_trophies_chronological player2 of
            None \<Rightarrow> Inl (KeyError player2)
          | Some results2 \<Rightarrow> Inr (race results1 results2)))"

text \<open>
  What the specification says of the head-to-head series, in its words: the events of both
  players in ascending order of timestamp, those of the first player before those of the
  second where the timestamps are equal and each player's own order kept (the stable sort
  of the first player's events followed by the second's); at each event, the running total
  of the first player minus that of the second.
\<close>

definition running_total :: "nat \<Rightarrow> (nat \<times> TrophyData) list \<Rightarrow> int" where
  "running_total player events =
     sum_list (map (\<lambda>v. count (snd v)) (filter (\<lambda>v. fst v = player) events))"

definition race_spec :: "TrophyData list \<Rightarrow> TrophyData list \<Rightarrow> timestamp list \<times> int list" where
  "race_spec results1 results2 =
     (let merged = sort_key (\<lambda>v. timestamp (snd v))
                     (map (Pair 0) results1 @ map (Pair (Suc 0)) results2)
      in (map (\<lambda>v. timestamp (snd v)) merged,
          map (\<lambda>i. running_total 0 (take (Suc i) merged)
                  - running_total (Suc 0) (take (Suc i) merged))
            [0..<length merged]))"

text \<open>
  \<^verbatim>\<open>
  def plot_categorized_trophies(categories, player_trophies, start_date):
      fig = go.Figure()
      for player, trophies in player_trophies.items():
          trophies_after_start = [
              trophy for trophy in trophies if trophy.timestamp >= start_date
          ]
          totals = collections.defaultdict(int)
          for trophy in trophies_after_start:
              totals[trophy.achievement_type] += trophy.count
          fig.add_trace(
              go.Bar(name=player, x=categories, y=[totals[cat] for cat in categories]),
          )
      return fig
  \<close>
  A \<^verbatim>\<open>defaultdict(int)\<close> gives 0 for a key it does not hold: it is a total function.
\<close>

fun totals_loop :: "TrophyData list \<Rightarrow> (string \<Rightarrow> int) \<Rightarrow> (string \<Rightarrow> int)" where
  "totals_loop [] totals = totals"
| "totals_loop (trophy # rest) totals =
     totals_loop rest
       (totals(achievement_type trophy := totals (achievement_type trophy) + count trophy))"

definition categorized_bar :: "string list \<Rightarrow> TrophyData list \<Rightarrow> timestamp \<Rightarrow> int list" where
  "categorized_bar categories trophies start_date =
     (let trophies_after_start = filter (\<lambda>trophy. timestamp trophy \<ge> start_date) trophies;
          totals = totals_loop trophies_after_start (\<lambda>cat. 0)
      in map totals categories)"

definition plot_categorized_trophies ::
  "string list \<Rightarrow> (string \<times> TrophyData list) list \<Rightarrow> timestamp \<Rightarrow>
     (string \<times> string list \<times> int list) list" where
  "plot_categorized_trophies categories player_trophies start_date =
     map (\<lambda>(player, trophies).
            (player, categories, categorized_bar categories trophies start_date))
       player_trophies"

section \<open>Example values\<close>

definition example_fromisoformat :: "string \<Rightarrow> timestamp option" where
  "example_fromisoformat s =
     (if s = ''2024-01-01T00:00:00+00:00'' then Some 1704067200
      else if s = ''2024-01-02T00:00:00+00:00'' then Some 1704153600
      else None)"

definition solo_gain :: pyval where
  "solo_gain = PDict (fmap_of_list
     [(''timestamp'', PStr ''2024-01-01T00:00:00+00:00''),
      (''achievement'', PDict (fmap_of_list
         [(''trophyAchievementType'', PStr ''SoloRanking''),
          (''trophySoloRankingAchievementType'', PStr ''SoloTop10'')])),
      (''counts'', PList [PInt 5, PInt 13, PInt 18, PInt 0, PInt 0, PInt 0, PInt 0,
                          PInt 0, PInt 0])])"

definition short_gain :: pyval where
  "short_gain = PDict (fmap_of_list
     [(''timestamp'', PStr ''2024-01-02T00:00:00+00:00''),
      (''achievement'', PDict (fmap_of_list [(''trophyAchievementType'', PStr ''SoloMedal'')])),
      (''counts'', PList [PInt 1, PInt 2])])"

definition medal_gain :: pyval where
  "medal_gain = PDict (fmap_of_list
     [(''timestamp'', PStr ''2024-01-02T00:00:00+00:00''),
      (''achievement'', PDict (fmap_of_list [(''trophyAchievementType'', PStr ''SoloMedal'')])),
      (''counts'', PList [PInt 0, PInt 0, PInt 0, PInt 4, PInt 0, PInt 0, PInt 0,
                          PInt 0, PInt 0])])"

definition solo_trophy :: TrophyData where
  "solo_trophy = \<lparr>timestamp = 1704067200, achievement_type = ''SoloRanking'', count = 1935,
                   data = solo_gain\<rparr>"

definition medal_trophy :: TrophyData where
  "medal_trophy = \<lparr>timestamp = 1704153600, achievement_type = ''SoloMedal'', count = 4000,
                    data = medal_gain\<rparr>"

definition example_page :: "int \<Rightarrow> pyval list \<Rightarrow> response" where
  "example_page n gains =
     \<lparr>ok = True,
      json = Some (PDict (fmap_of_list [(''gains'', PList gains), (''total'', PInt n)]))\<rparr>"

definition failed_response :: response where
  "failed_response =
     \<lparr>ok = False, json = Some (PDict (fmap_of_list [(''error'', PStr ''rate limited'')]))\<rparr>"


definition two_pages :: "nat \<Rightarrow> response" where
  "two_pages page =
     (if page = 0 then example_page 2 [solo_gain]
      else if page = 1 then example_page 2 [medal_gain]
      else failed_response)"



definition example_results :: "(string, TrophyData list) fmap" where
  "example_results =
     fmap_of_list [(''jmal'', [solo_trophy, medal_trophy]), (''sampleses'', [])]"

definition example_trophy :: "timestamp \<Rightarrow> string \<Rightarrow> int \<Rightarrow> TrophyData" where
  "example_trophy t a c = \<lparr>timestamp = t, achievement_type = a, count = c, data = PNone\<rparr>"

section \<open>Properties of the point value\<close>

lemma and_then_Inr [simp]: "and_then (Inr v) f = f v"
  by (simp add: and_then_def)

lemma and_then_Inl [simp]: "and_then (Inl e) f = Inl e"
  by (simp add: and_then_def)

lemma and_then_eq_Inr:
  "and_then r f = Inr y \<longleftrightarrow> (\<exists>v. r = Inr v \<and> f v = Inr y)"
  by (cases r) simp_all

lemma upt_9: "[0..<9] = [0, 1, 2, 3, 4, 5, 6, 7, 8]"
  by (simp add: upt_rec)

lemma sum_trophy_points_len9:
  "length counts = 9 \<Longrightarrow>
     sum_trophy_points counts = Inr (\<Sum>i<9. counts ! i * 10 ^ i)"
  unfolding sum_trophy_points_def Let_def
  by (simp add: interv_sum_list_conv_sum_set_nat atLeast0LessThan)

lemma sum_trophy_points_unit:
  assumes "i < 9"
  shows "sum_trophy_points ((replicate 9 0)[i := 1]) = Inr (10 ^ i)"
proof -
  have "(\<Sum>j<9. ((replicate 9 (0::int))[i := 1]) ! j * 10 ^ j)
        = (\<Sum>j<9. if j = i then 10 ^ i else 0)"
    by (rule sum.cong) (auto simp: nth_list_update)
  also have "\<dots> = 10 ^ i"
    using assms by simp
  finally show ?thesis
    by (simp add: sum_trophy_points_len9)
qed

text \<open>
  C2. For a count vector of exactly 9 integers the point value is the sum of
  \<open>counts[i] * 10^i\<close> over \<open>i = 0..8\<close>. In particular the vector that is all zeros but a 1
  at position \<open>i\<close> gives \<open>10^i\<close>, \<open>[5,13,18,0,0,0,0,0,0]\<close> gives 1935 and
  \<open>[0,0,0,4,0,0,0,0,0]\<close> gives 4000.
\<close>

theorem sum_trophy_points_base10:
  "(length counts = 9 \<longrightarrow>
      sum_trophy_points counts = Inr (\<Sum>i<9. counts ! i * 10 ^ i))
   \<and> (i < 9 \<longrightarrow> sum_trophy_points ((replicate 9 0)[i := 1]) = Inr (10 ^ i))
   \<and> sum_trophy_points [5, 13, 18, 0, 0, 0, 0, 0, 0] = Inr 1935
   \<and> sum_trophy_points [0, 0, 0, 4, 0, 0, 0, 0, 0] = Inr 4000"
proof (intro conjI impI)
  show "sum_trophy_points [5, 13, 18, 0, 0, 0, 0, 0, 0] = Inr 1935"
    by (simp add: sum_trophy_points_def upt_9)
  show "sum_trophy_points [0, 0, 0, 4, 0, 0, 0, 0, 0] = Inr 4000"
    by (simp add: sum_trophy_points_def upt_9)
  show "sum_trophy_points ((replicate 9 0)[i := 1]) = Inr (10 ^ i)" if "i < 9"
    using that by (rule sum_trophy_points_unit)
  show "sum_trophy_points counts = Inr (\<Sum>i<9. counts ! i * 10 ^ i)" if "length counts = 9"
    using that by (rule sum_trophy_points_len9)
qed

theorem sum_trophy_points_base10_witness:
  "sum_trophy_points [1, 2, 3, 4, 5, 6, 7, 8, 9] = Inr 987654321
   \<and> sum_trophy_points [0, 0, 0, 0, 0, 0, 0, 0, 1] = Inr 100000000"
proof -
  have unit: "(replicate 9 0)[8 := 1] = [0, 0, 0, 0, 0, 0, 0, 0, 1::int]"
    by code_simp
  show ?thesis
    using sum_trophy_points_base10 [of "[1, 2, 3, 4, 5, 6, 7, 8, 9]" 8]
    by (simp add: unit lessThan_nat_numeral lessThan_Suc)
qed

section \<open>Properties of record construction\<close>

lemma as_str_eq_Inr: "as_str v = Inr s \<longleftrightarrow> v = PStr s"
  by (cases v) simp_all

lemma as_int_eq_Inr: "as_int v = Inr n \<longleftrightarrow> v = PInt n"
  by (cases v) simp_all

lemma as_ints_eq_Inr: "as_ints vs = Inr cs \<longleftrightarrow> vs = map PInt cs"
  by (induction vs arbitrary: cs) (auto simp: and_then_eq_Inr as_int_eq_Inr)

lemma as_int_list_eq_Inr: "as_int_list v = Inr cs \<longleftrightarrow> v = PList (map PInt cs)"
  by (cases v) (simp_all add: as_ints_eq_Inr)

lemma as_list_eq_Inr: "as_list v = Inr vs \<longleftrightarrow> v = PList vs"
  by (cases v) simp_all

lemma sum_trophy_points_eq_Inr:
  "sum_trophy_points counts = Inr v \<longleftrightarrow>
     length counts = 9 \<and> v = (\<Sum>i<9. counts ! i * 10 ^ i)"
  using sum_trophy_points_len9 [of counts]
  by (auto simp: sum_trophy_points_def Let_def)

lemma parse_timestamp_eq_Inr:
  "parse_timestamp fromisoformat v = Inr t \<longleftrightarrow>
     (\<exists>s. v = PStr s \<and> fromisoformat s = Some t)"
  by (cases v) (auto simp: parse_timestamp_def split: option.splits)

text \<open>When, and with what, \<open>from_gain\<close> returns a record.\<close>

lemma from_gain_eq_Inr:
  "from_gain fromisoformat g = Inr r \<longleftrightarrow>
     (\<exists>s ts achieve category counts.
        getitem g ''timestamp'' = Inr (PStr s) \<and> fromisoformat s = Some ts \<and>
        getitem g ''achievement'' = Inr achieve \<and>
        getitem achieve ''trophyAchievementType'' = Inr (PStr category) \<and>
        getitem g ''counts'' = Inr (PList (map PInt counts)) \<and> length counts = 9 \<and>
        r = \<lparr>timestamp = ts, achievement_type = category,
             count = (\<Sum>i<9. counts ! i * 10 ^ i), data = g\<rparr>)"
  unfolding from_gain_def and_then_eq_Inr as_str_eq_Inr as_int_list_eq_Inr
    sum_trophy_points_eq_Inr parse_timestamp_eq_Inr
  by auto

text \<open>
  C1. The claim: for a gain payload of category "SoloRanking" the record's
  \<open>achievement_type\<close> is the compound label "SoloRanking - <subtype>". The code of
  \<open>from_gain\<close> stores the category as it is; the compound label is what \<open>categorize\<close>
  computes, which \<open>from_gain\<close> does not call. At the payload \<open>solo_gain\<close> the record has
  the label "SoloRanking" where \<open>categorize\<close> gives "SoloRanking - SoloTop10".
\<close>

theorem from_gain_solo_ranking_label:
  "from_gain example_fromisoformat solo_gain =
     Inr \<lparr>timestamp = 1704067200, achievement_type = ''SoloRanking'', count = 1935,
          data = solo_gain\<rparr>
   \<and> categorize solo_gain = Inr ''SoloRanking - SoloTop10''"
proof
  show "categorize solo_gain = Inr ''SoloRanking - SoloTop10''"
    by (simp add: categorize_def solo_gain_def)
  have "from_gain example_fromisoformat solo_gain =
     Inr \<lparr>timestamp = 1704067200, achievement_type = ''SoloRanking'', count = 1935,
          data = PDict (fmap_of_list
     [(''timestamp'', PStr ''2024-01-01T00:00:00+00:00''),
      (''achievement'', PDict (fmap_of_list
         [(''trophyAchievementType'', PStr ''SoloRanking''),
          (''trophySoloRankingAchievementType'', PStr ''SoloTop10'')])),
      (''counts'', PList [PInt 5, PInt 13, PInt 18, PInt 0, PInt 0, PInt 0, PInt 0,
                          PInt 0, PInt 0])])\<rparr>"
    by (simp add: from_gain_def solo_gain_def parse_timestamp_def example_fromisoformat_def
        sum_trophy_points_def upt_9)
  then show "from_gain example_fromisoformat solo_gain =
     Inr \<lparr>timestamp = 1704067200, achievement_type = ''SoloRanking'', count = 1935,
          data = solo_gain\<rparr>"
    by (simp add: solo_gain_def)
qed

text \<open>
  C3. The derivation of the point value raises (a \<open>ValueError\<close>) exactly when the count
  vector does not have 9 elements, and returns a value for every vector of 9 elements. A
  payload whose count vector has another length gives no record: the construction is
  aborted.
\<close>

theorem sum_trophy_points_fails_iff:
  "(sum_trophy_points counts = Inl ValueError \<longleftrightarrow> length counts \<noteq> 9)
   \<and> ((\<exists>e. sum_trophy_points counts = Inl e) \<longleftrightarrow> length counts \<noteq> 9)
   \<and> ((\<exists>v. sum_trophy_points counts = Inr v) \<longleftrightarrow> length counts = 9)
   \<and> (getitem g ''counts'' = Inr (PList vs) \<and> length vs \<noteq> 9 \<longrightarrow>
        (\<exists>e. from_gain fromisoformat g = Inl e))"
proof (intro conjI impI)
  assume bad: "getitem g ''counts'' = Inr (PList vs) \<and> length vs \<noteq> 9"
  have "from_gain fromisoformat g \<noteq> Inr r" for r
    using bad by (auto simp: from_gain_eq_Inr)
  then show "\<exists>e. from_gain fromisoformat g = Inl e"
    by (cases "from_gain fromisoformat g") auto
qed (auto simp: sum_trophy_points_def Let_def)

theorem sum_trophy_points_fails_iff_witness:
  "sum_trophy_points [] = Inl ValueError
   \<and> (\<exists>e. from_gain example_fromisoformat short_gain = Inl e)"
  using sum_trophy_points_fails_iff
    [of "[]" short_gain "[PInt 1, PInt 2]" example_fromisoformat]
  by (simp add: short_gain_def)

section \<open>Properties of the cumulative reducer\<close>

lemma example_trophy_sel [simp]:
  "timestamp (example_trophy t a c) = t"
  "achievement_type (example_trophy t a c) = a"
  "count (example_trophy t a c) = c"
  by (simp_all add: example_trophy_def)

lemma wrap_int64_id: "fits_int64 v \<Longrightarrow> wrap_int64 v = v"
  by (simp add: fits_int64_def wrap_int64_def)

lemma wrap_int64_add: "wrap_int64 (wrap_int64 a + b) = wrap_int64 (a + b)"
proof -
  define m :: int where "m = 2 ^ 64"
  define h :: int where "h = 2 ^ 63"
  have "wrap_int64 (wrap_int64 a + b) = (((a + h) mod m - h) + b + h) mod m - h"
    by (simp add: wrap_int64_def m_def h_def)
  also have "((a + h) mod m - h) + b + h = (a + h) mod m + b"
    by simp
  also have "((a + h) mod m + b) mod m = (a + h + b) mod m"
    by (rule mod_add_left_eq)
  also have "a + h + b = a + b + h"
    by simp
  finally show ?thesis
    by (simp add: wrap_int64_def m_def h_def)
qed

lemma cumsum_from_eq:
  "cumsum_from acc vs
     = map (\<lambda>i. wrap_int64 (acc + sum_list (take (Suc i) vs))) [0..<length vs]"
proof (induction vs arbitrary: acc)
  case Nil
  show ?case by simp
next
  case (Cons v vs)
  have "map (\<lambda>i. wrap_int64 (acc + sum_list (take (Suc i) (v # vs)))) [0..<length (v # vs)]
        = wrap_int64 (acc + v)
          # map (\<lambda>i. wrap_int64 (acc + v + sum_list (take (Suc i) vs))) [0..<length vs]"
    by (simp add: map_upt_Suc add.assoc del: upt_Suc)
  then show ?case
    by (simp add: Cons.IH wrap_int64_add)
qed

lemma cumsum_wraps:
  "list_all fits_int64 vs \<Longrightarrow> cumsum vs = Some (map wrap_int64 (running_sums vs))"
  by (simp add: cumsum_def cumsum_from_eq running_sums_def)

lemma cumsum_exact:
  assumes "list_all fits_int64 vs" and "list_all fits_int64 (running_sums vs)"
  shows "cumsum vs = Some (running_sums vs)"
proof -
  have "map wrap_int64 (running_sums vs) = running_sums vs"
    using assms(2) by (simp add: map_idI list_all_iff wrap_int64_id)
  then show ?thesis
    using assms(1) by (simp add: cumsum_wraps)
qed

lemma length_running_sums: "length (running_sums vs) = length vs"
  by (simp add: running_sums_def)

lemma trophies_chronological_sorted:
  "(player, trophies) \<in> set (trophies_chronological player_trophies) \<Longrightarrow>
     sorted (map timestamp trophies)"
  by (auto simp: trophies_chronological_def)

lemma cumulative_trace_sorted:
  assumes "sorted (map timestamp trophies)"
    and "list_all fits_int64 (map count trophies)"
    and "list_all fits_int64 (running_sums (map count trophies))"
  shows "cumulative_trace trophies
     = (map timestamp trophies, Some (running_sums (map count trophies)))"
  using assms by (simp add: cumulative_trace_def sort_key_id_if_sorted cumsum_exact)

lemma list_all_sort_key: "list_all P (map g (sort_key f xs)) = list_all P (map g xs)"
  by (simp add: list_all_iff)

text \<open>
  C5, as amended. The claim: for every player the cumulative reducer emits the running sum
  of \<open>count\<close> over the player's records in order of timestamp. \<^verbatim>\<open>np.cumsum\<close> adds in signed
  64-bit integers: two records with the count \<open>2^62\<close> give the second point \<open>-2^63\<close>, not
  the sum \<open>2^63\<close>. What holds: where every count fits 64 bits, the \<open>y\<close> series is the
  running sums of the counts in stable order of timestamp, each wrapped to 64 bits, one
  point per record, with the timestamps as \<open>x\<close>; it is the running sums themselves where
  these fit 64 bits too. The trace is computed from the stably sorted list, which is the
  input itself when that is sorted already. The series of an empty list is empty, and the
  counts 3, 5, 2 in order of timestamp give 3, 8, 10.
\<close>

theorem plot_cumulative_trophies_running_sum:
  "(list_all fits_int64 (map count trophies) \<longrightarrow>
      cumulative_trace trophies =
        (let chron = sort_key timestamp trophies in
         (map timestamp chron, Some (map wrap_int64 (running_sums (map count chron))))))
   \<and> (list_all fits_int64 (map count trophies) \<and>
       list_all fits_int64 (running_sums (map count (sort_key timestamp trophies))) \<longrightarrow>
         cumulative_trace trophies =
           (let chron = sort_key timestamp trophies in
            (map timestamp chron, Some (running_sums (map count chron)))))
   \<and> ((\<forall>(player, trophies) \<in> set player_trophies.
          sorted (map timestamp trophies) \<and> list_all fits_int64 (map count trophies) \<and>
          list_all fits_int64 (running_sums (map count trophies))) \<longrightarrow>
        plot_cumulative_trophies player_trophies =
          map (\<lambda>(player, trophies).
                 (player, map timestamp trophies, Some (running_sums (map count trophies))))
            player_trophies)
   \<and> running_sums vs = map (\<lambda>i. sum_list (take (Suc i) vs)) [0..<length vs]
   \<and> cumulative_trace [] = ([], Some [])
   \<and> (t1 \<le> t2 \<and> t2 \<le> t3 \<longrightarrow>
        cumulative_trace
          [example_trophy t1 a1 3, example_trophy t2 a2 5, example_trophy t3 a3 2]
        = ([t1, t2, t3], Some [3, 8, 10]))"
proof (intro conjI impI)
  show "cumulative_trace trophies =
        (let chron = sort_key timestamp trophies in
         (map timestamp chron, Some (map wrap_int64 (running_sums (map count chron)))))"
    if "list_all fits_int64 (map count trophies)"
    using that by (simp add: cumulative_trace_def Let_def cumsum_wraps list_all_sort_key)
  show "cumulative_trace trophies =
           (let chron = sort_key timestamp trophies in
            (map timestamp chron, Some (running_sums (map count chron))))"
    if "list_all fits_int64 (map count trophies) \<and>
       list_all fits_int64 (running_sums (map count (sort_key timestamp trophies)))"
    using that by (simp add: cumulative_trace_def Let_def cumsum_exact list_all_sort_key)
  show "running_sums vs = map (\<lambda>i. sum_list (take (Suc i) vs)) [0..<length vs]"
    by (rule running_sums_def)
  show "cumulative_trace [] = ([], Some [])"
    by (simp add: cumulative_trace_def cumsum_def)
  show "cumulative_trace
          [example_trophy t1 a1 3, example_trophy t2 a2 5, example_trophy t3 a3 2]
        = ([t1, t2, t3], Some [3, 8, 10])" if "t1 \<le> t2 \<and> t2 \<le> t3"
    using that
    by (simp add: cumulative_trace_def cumsum_def sort_key_id_if_sorted fits_int64_def
        wrap_int64_def)
  show "plot_cumulative_trophies player_trophies =
          map (\<lambda>(player, trophies).
                 (player, map timestamp trophies, Some (running_sums (map count trophies))))
            player_trophies"
    if "\<forall>(player, trophies) \<in> set player_trophies.
          sorted (map timestamp trophies) \<and> list_all fits_int64 (map count trophies) \<and>
          list_all fits_int64 (running_sums (map count trophies))"
    unfolding plot_cumulative_trophies_def
    using that by (intro map_cong) (auto simp: cumulative_trace_sorted)
qed

theorem plot_cumulative_trophies_running_sum_witness:
  "plot_cumulative_trophies
     [(''jmal'', [example_trophy 10 ''A'' 3, example_trophy 20 ''B'' 5,
                  example_trophy 30 ''A'' 2]),
      (''sampleses'', [])]
   = [(''jmal'', [10, 20, 30], Some [3, 8, 10]), (''sampleses'', [], Some [])]
   \<and> cumulative_trace
        [example_trophy 30 ''A'' 2, example_trophy 10 ''A'' 3, example_trophy 20 ''B'' 5]
      = ([10, 20, 30], Some [3, 8, 10])"
  using plot_cumulative_trophies_running_sum
    [of "[example_trophy 30 ''A'' 2, example_trophy 10 ''A'' 3, example_trophy 20 ''B'' 5]"
        "[(''jmal'', [example_trophy 10 ''A'' 3, example_trophy 20 ''B'' 5,
                  example_trophy 30 ''A'' 2]),
      (''sampleses'', [])]" "[]" 10 20 30 "''A''" "''B''" "''A''"]
  by (simp add: running_sums_def fits_int64_def wrap_int64_def upt_rec)

text \<open>
  The claim C5 as stated fails: the counts \<open>2^62\<close> and \<open>2^62\<close> have the running sum
  \<open>2^63\<close>; the second point of the series is \<open>-2^63\<close>.
\<close>

theorem plot_cumulative_trophies_running_sum_counterexample:
  "cumulative_trace
     [example_trophy 10 ''A'' 4611686018427387904,
      example_trophy 20 ''B'' 4611686018427387904]
   = ([10, 20], Some [4611686018427387904, - 9223372036854775808])
   \<and> running_sums [4611686018427387904, 4611686018427387904]
       = [4611686018427387904, 9223372036854775808]"
  by (simp add: cumulative_trace_def cumsum_def fits_int64_def wrap_int64_def
      running_sums_def upt_rec)

lemma sort_key_cong_stable:
  assumes "mset xs = mset ys"
    and "\<And>t. filter (\<lambda>r. f r = t) xs = filter (\<lambda>r. f r = t) ys"
  shows "sort_key f xs = sort_key f ys"
proof (rule properties_for_sort_key)
  show "mset (sort_key f ys) = mset xs"
    using assms(1) by simp
  show "sorted (map f (sort_key f ys))"
    by simp
  show "\<And>k. k \<in> set (sort_key f ys) \<Longrightarrow>
          filter (\<lambda>x. f k = f x) (sort_key f ys) = filter (\<lambda>x. f k = f x) xs"
  proof -
    fix k
    have "filter (\<lambda>x. f x = f k) (sort_key f ys) = filter (\<lambda>x. f x = f k) ys"
      by (rule sort_key_stable)
    also have "\<dots> = filter (\<lambda>x. f x = f k) xs"
      by (rule assms(2) [symmetric])
    finally show "filter (\<lambda>x. f k = f x) (sort_key f ys) = filter (\<lambda>x. f k = f x) xs"
      by (simp add: eq_commute [of "f k"])
  qed
qed

lemma filter_key_distinct:
  assumes "distinct (map f xs)"
  shows "filter (\<lambda>r. f r = t) xs = (if t \<in> f ` set xs then [the_inv_into (set xs) f t] else [])"
  using assms
proof (induction xs)
  case Nil
  show ?case by simp
next
  case (Cons x xs)
  have inj: "inj_on f (set (x # xs))"
    using Cons.prems distinct_map by blast
  show ?case
  proof (cases "f x = t")
    case True
    then have "t \<notin> f ` set xs"
      using Cons.prems by auto
    then have "filter (\<lambda>r. f r = t) xs = []"
      by (auto simp: filter_empty_conv)
    moreover have "the_inv_into (set (x # xs)) f t = x"
      using True inj by (auto intro: the_inv_into_f_eq)
    ultimately show ?thesis
      using True by simp
  next
    case False
    have "the_inv_into (set (x # xs)) f t = the_inv_into (set xs) f t" if "t \<in> f ` set xs"
    proof -
      from that obtain r where r: "r \<in> set xs" "f r = t" by auto
      have "inj_on f (set xs)" using Cons.prems by (simp add: distinct_map)
      then have "the_inv_into (set xs) f t = r"
        using r by (auto intro: the_inv_into_f_eq)
      moreover have "the_inv_into (set (x # xs)) f t = r"
        using r inj by (auto intro: the_inv_into_f_eq)
      ultimately show ?thesis by simp
    qed
    then show ?thesis
      using False Cons by auto
  qed
qed

lemma sort_key_cong_distinct:
  assumes "mset xs = mset ys" and "distinct (map f xs)"
  shows "sort_key f xs = sort_key f ys"
proof (rule sort_key_cong_stable [OF assms(1)])
  fix t
  have "mset (map f xs) = mset (map f ys)"
    using assms(1) by (metis mset_map)
  then have dy: "distinct (map f ys)"
    using assms(2) by (metis mset_eq_imp_distinct_iff)
  have "set xs = set ys"
    using assms(1) by (rule mset_eq_setD)
  then show "filter (\<lambda>r. f r = t) xs = filter (\<lambda>r. f r = t) ys"
    by (simp add: filter_key_distinct [OF assms(2)] filter_key_distinct [OF dy])
qed

lemma map_sort_key_mset:
  assumes "mset xs = mset ys"
  shows "map f (sort_key f xs) = map f (sort_key f ys)"
proof -
  have "map f (sort_key f zs) = sort (map f zs)" for zs :: "'a list"
    by (rule properties_for_sort [symmetric]) simp_all
  moreover have "sort (map f xs) = sort (map f ys)"
  proof (rule properties_for_sort)
    show "mset (sort (map f ys)) = mset (map f xs)"
      using assms by (metis mset_map mset_sort)
  qed simp
  ultimately show ?thesis by simp
qed

text \<open>
  C10, as amended. The claim: the cumulative series of a player is the same for any two
  input lists that are permutations of each other. The sort by timestamp is stable, so
  records with one timestamp stay in their input order, and the running sums between them
  follow that order: the two orders of two records with the timestamp 10 and the counts 3
  and 5 give the \<open>y\<close> series 3, 8 and 5, 8. What holds: the \<open>x\<close> series is the same for
  every permutation; the whole series is the same for every permutation that keeps the
  relative order of the records with equal timestamps, so for every permutation when the
  timestamps are pairwise distinct.
\<close>

theorem cumulative_trace_permutation:
  "(mset xs = mset ys \<longrightarrow> fst (cumulative_trace xs) = fst (cumulative_trace ys))
   \<and> (mset xs = mset ys \<and>
       (\<forall>t. filter (\<lambda>r. timestamp r = t) xs = filter (\<lambda>r. timestamp r = t) ys) \<longrightarrow>
        cumulative_trace xs = cumulative_trace ys)
   \<and> (mset xs = mset ys \<and> distinct (map timestamp xs) \<longrightarrow>
        cumulative_trace xs = cumulative_trace ys)"
proof (intro conjI impI)
  show "fst (cumulative_trace xs) = fst (cumulative_trace ys)" if "mset xs = mset ys"
    using map_sort_key_mset [OF that, of timestamp] by (simp add: cumulative_trace_def Let_def)
  show "cumulative_trace xs = cumulative_trace ys"
    if "mset xs = mset ys \<and>
       (\<forall>t. filter (\<lambda>r. timestamp r = t) xs = filter (\<lambda>r. timestamp r = t) ys)"
    using sort_key_cong_stable [of xs ys timestamp] that by (simp add: cumulative_trace_def)
  show "cumulative_trace xs = cumulative_trace ys"
    if "mset xs = mset ys \<and> distinct (map timestamp xs)"
    using sort_key_cong_distinct [of xs ys timestamp] that by (simp add: cumulative_trace_def)
qed

theorem cumulative_trace_permutation_witness:
  "cumulative_trace [example_trophy 20 ''B'' 5, example_trophy 10 ''A'' 3]
   = cumulative_trace [example_trophy 10 ''A'' 3, example_trophy 20 ''B'' 5]"
  using cumulative_trace_permutation
    [of "[example_trophy 20 ''B'' 5, example_trophy 10 ''A'' 3]"
        "[example_trophy 10 ''A'' 3, example_trophy 20 ''B'' 5]"]
  by simp

text \<open>The claim C10 as stated fails: a permutation of two records with one timestamp.\<close>

theorem cumulative_trace_permutation_counterexample:
  "mset [example_trophy 10 ''A'' 3, example_trophy 10 ''B'' 5]
     = mset [example_trophy 10 ''B'' 5, example_trophy 10 ''A'' 3]
   \<and> cumulative_trace [example_trophy 10 ''A'' 3, example_trophy 10 ''B'' 5]
     \<noteq> cumulative_trace [example_trophy 10 ''B'' 5, example_trophy 10 ''A'' 3]"
  by (simp add: cumulative_trace_def cumsum_def fits_int64_def wrap_int64_def)

section \<open>Properties of the categorized reducer\<close>

lemma totals_loop_eq:
  "totals_loop trophies totals cat =
     totals cat + sum_list (map count (filter (\<lambda>t. achievement_type t = cat) trophies))"
  by (induction trophies arbitrary: totals) simp_all

lemma categorized_bar_eq:
  "categorized_bar categories trophies start_date =
     map (\<lambda>cat. sum_list (map count
            (filter (\<lambda>t. start_date \<le> timestamp t \<and> achievement_type t = cat) trophies)))
       categories"
  by (simp add: categorized_bar_def totals_loop_eq conj_commute)

text \<open>
  C7. For every player, cutoff and list of categories, the categorized reducer gives, for
  each listed category, the sum of \<open>count\<close> over exactly the player's records of that
  category with \<open>timestamp \<ge> cutoff\<close>. The bar has one value for each listed category,
  and the value is 0 for a category with no such record.
\<close>

theorem plot_categorized_trophies_totals:
  "plot_categorized_trophies categories player_trophies start_date =
     map (\<lambda>(player, trophies).
            (player, categories,
             map (\<lambda>cat. sum_list (map count
                    (filter (\<lambda>t. start_date \<le> timestamp t \<and> achievement_type t = cat)
                       trophies)))
               categories))
       player_trophies
   \<and> length (categorized_bar categories trophies start_date) = length categories
   \<and> (i < length categories \<and>
       (\<forall>t \<in> set trophies. start_date \<le> timestamp t \<longrightarrow> achievement_type t \<noteq> categories ! i)
       \<longrightarrow> categorized_bar categories trophies start_date ! i = 0)"
proof (intro conjI impI)
  show "plot_categorized_trophies categories player_trophies start_date =
     map (\<lambda>(player, trophies).
            (player, categories,
             map (\<lambda>cat. sum_list (map count
                    (filter (\<lambda>t. start_date \<le> timestamp t \<and> achievement_type t = cat)
                       trophies)))
               categories))
       player_trophies"
    by (simp add: plot_categorized_trophies_def categorized_bar_eq)
  show "length (categorized_bar categories trophies start_date) = length categories"
    by (simp add: categorized_bar_eq)
  assume h: "i < length categories \<and>
       (\<forall>t \<in> set trophies. start_date \<le> timestamp t \<longrightarrow> achievement_type t \<noteq> categories ! i)"
  then have "filter (\<lambda>t. start_date \<le> timestamp t \<and> achievement_type t = categories ! i)
               trophies = []"
    by (auto simp: filter_empty_conv)
  then show "categorized_bar categories trophies start_date ! i = 0"
    using h by (simp add: categorized_bar_eq)
qed

theorem plot_categorized_trophies_totals_witness:
  "plot_categorized_trophies [''A'', ''B'', ''C'']
     [(''jmal'', [example_trophy 5 ''A'' 3, example_trophy 15 ''A'' 4,
                  example_trophy 20 ''B'' 7, example_trophy 10 ''A'' 1])] 10
   = [(''jmal'', [''A'', ''B'', ''C''], [5, 7, 0])]
   \<and> categorized_bar [''A'', ''B'', ''C'']
        [example_trophy 5 ''A'' 3, example_trophy 15 ''A'' 4,
         example_trophy 20 ''B'' 7, example_trophy 10 ''A'' 1] 10 ! 2 = 0"
  using plot_categorized_trophies_totals
    [of "[''A'', ''B'', ''C'']"
        "[(''jmal'', [example_trophy 5 ''A'' 3, example_trophy 15 ''A'' 4,
                  example_trophy 20 ''B'' 7, example_trophy 10 ''A'' 1])]" 10
        "[example_trophy 5 ''A'' 3, example_trophy 15 ''A'' 4,
         example_trophy 20 ''B'' 7, example_trophy 10 ''A'' 1]" 2]
  by simp

section \<open>Properties of the head-to-head reducer\<close>

lemma mset_heapq_merge: "mset (heapq_merge key xs ys) = mset xs + mset ys"
  by (induction key xs ys rule: heapq_merge.induct) simp_all

lemma set_heapq_merge: "set (heapq_merge key xs ys) = set xs \<union> set ys"
  by (induction key xs ys rule: heapq_merge.induct) auto

lemma sorted_heapq_merge:
  "sorted (map key xs) \<Longrightarrow> sorted (map key ys) \<Longrightarrow> sorted (map key (heapq_merge key xs ys))"
  by (induction key xs ys rule: heapq_merge.induct) (auto simp: set_heapq_merge)

lemma filter_heapq_merge:
  "sorted (map key xs) \<Longrightarrow> sorted (map key ys) \<Longrightarrow>
     filter (\<lambda>v. key v = k) (heapq_merge key xs ys)
       = filter (\<lambda>v. key v = k) xs @ filter (\<lambda>v. key v = k) ys"
proof (induction key xs ys rule: heapq_merge.induct)
  case (3 key x xs y ys)
  show ?case
  proof (cases "key y < key x")
    case True
    have "filter (\<lambda>v. key v = k) (x # xs) = []" if "key y = k"
      using that True "3.prems"(1) by (auto simp: filter_empty_conv)
    then show ?thesis
      using True 3 by auto
  next
    case False
    then show ?thesis
      using 3 by auto
  qed
qed simp_all

lemma heapq_merge_eq_sort_key:
  assumes "sorted (map key xs)" and "sorted (map key ys)"
  shows "heapq_merge key xs ys = sort_key key (xs @ ys)"
proof (rule properties_for_sort_key [symmetric])
  show "mset (heapq_merge key xs ys) = mset (xs @ ys)"
    by (simp add: mset_heapq_merge)
  show "sorted (map key (heapq_merge key xs ys))"
    using assms by (rule sorted_heapq_merge)
  show "filter (\<lambda>x. key k = key x) (heapq_merge key xs ys)
            = filter (\<lambda>x. key k = key x) (xs @ ys)" for k
  proof -
    have "(\<lambda>x. key k = key x) = (\<lambda>x. key x = key k)"
      by (rule ext) (rule eq_commute)
    then show ?thesis
      using filter_heapq_merge [OF assms, of "key k"] by simp
  qed
qed

lemma running_total_Nil [simp]: "running_total p [] = 0"
  by (simp add: running_total_def)

lemma running_total_Cons:
  "running_total p ((q, t) # evs) = (if q = p then count t else 0) + running_total p evs"
  by (simp add: running_total_def)

lemma race_loop_eq:
  assumes "\<forall>v \<in> set events. fst v < 2"
  shows "race_loop events [a, b] t deltas =
     (t @ map (\<lambda>v. timestamp (snd v)) events,
      deltas @ map (\<lambda>i. (a + running_total 0 (take (Suc i) events))
                        - (b + running_total (Suc 0) (take (Suc i) events)))
                 [0..<length events])"
  using assms
proof (induction events arbitrary: a b t deltas)
  case Nil
  show ?case by simp
next
  case (Cons v events)
  obtain player trophy where v: "v = (player, trophy)" by (cases v)
  have player: "player = 0 \<or> player = Suc 0"
    using Cons.prems v by auto
  have rest: "\<forall>v \<in> set events. fst v < 2"
    using Cons.prems by simp
  show ?case
    using player
  proof
    assume p: "player = 0"
    show ?thesis
      unfolding v p
      by (simp add: Cons.IH [OF rest] map_upt_Suc running_total_Cons algebra_simps
          del: upt_Suc)
  next
    assume p: "player = Suc 0"
    show ?thesis
      unfolding v p
      by (simp add: Cons.IH [OF rest] map_upt_Suc running_total_Cons algebra_simps
          del: upt_Suc)
  qed
qed

lemma race_eq_race_spec:
  assumes "sorted (map timestamp results1)" and "sorted (map timestamp results2)"
  shows "race results1 results2 = race_spec results1 results2"
proof -
  let ?key = "\<lambda>v :: nat \<times> TrophyData. timestamp (snd v)"
  let ?xs = "map (Pair 0) results1" and ?ys = "map (Pair (Suc 0)) results2"
  have "sorted (map ?key ?xs)" "sorted (map ?key ?ys)"
    using assms by (simp_all add: comp_def)
  then have merge: "heapq_merge ?key ?xs ?ys = sort_key ?key (?xs @ ?ys)"
    by (rule heapq_merge_eq_sort_key)
  have players: "\<forall>v \<in> set (sort_key ?key (?xs @ ?ys)). fst v < 2"
    by auto
  show ?thesis
    unfolding race_def race_spec_def Let_def merge
    by (simp add: race_loop_eq [OF players])
qed


text \<open>
  C6. For timestamp-sorted record lists of the two named players, the head-to-head reducer
  emits the series of the specification: the events of both players merged in ascending
  order of timestamp, stably, with the first player's events first where timestamps are
  equal, and at each merged event its timestamp and the running total of the first player
  minus that of the second. Merging \<open>A = [(t1, 5)]\<close> and \<open>B = [(t2, 3)]\<close> with
  \<open>t1 < t2\<close> gives the deltas 5, 2.
\<close>

theorem plot_race_stable_merge:
  "(map_of player_trophies_chronological player1 = Some results1 \<and>
    map_of player_trophies_chronological player2 = Some results2 \<and>
    sorted (map timestamp results1) \<and> sorted (map timestamp results2) \<longrightarrow>
      plot_race player_trophies_chronological player1 player2
        = Inr (race_spec results1 results2))
   \<and> (t1 < t2 \<longrightarrow>
        race [example_trophy t1 a1 5] [example_trophy t2 a2 3] = ([t1, t2], [5, 2]))"
proof (intro conjI impI)
  assume "map_of player_trophies_chronological player1 = Some results1 \<and>
    map_of player_trophies_chronological player2 = Some results2 \<and>
    sorted (map timestamp results1) \<and> sorted (map timestamp results2)"
  then show "plot_race player_trophies_chronological player1 player2
        = Inr (race_spec results1 results2)"
    by (simp add: plot_race_def race_eq_race_spec)
next
  assume "t1 < t2"
  then show "race [example_trophy t1 a1 5] [example_trophy t2 a2 3] = ([t1, t2], [5, 2])"
    by (simp add: race_def)
qed

theorem plot_race_stable_merge_witness:
  "plot_race [(''jmal'', [example_trophy 10 ''A'' 5, example_trophy 30 ''B'' 1]),
              (''sampleses'', [example_trophy 10 ''A'' 2, example_trophy 20 ''B'' 3])]
     ''jmal'' ''sampleses''
   = Inr ([10, 10, 20, 30], [5, 3, 0, 1])
   \<and> race [example_trophy 10 ''A'' 5] [example_trophy 20 ''B'' 3] = ([10, 20], [5, 2])"
  using plot_race_stable_merge
    [of "[(''jmal'', [example_trophy 10 ''A'' 5, example_trophy 30 ''B'' 1]),
              (''sampleses'', [example_trophy 10 ''A'' 2, example_trophy 20 ''B'' 3])]"
        "''jmal''" "[example_trophy 10 ''A'' 5, example_trophy 30 ''B'' 1]"
        "''sampleses''" "[example_trophy 10 ''A'' 2, example_trophy 20 ''B'' 3]"
        10 20 "''A''" "''B''"]
  by (simp add: race_spec_def running_total_def upt_rec)

section \<open>Properties of the fetcher\<close>

lemma from_gain_solo_gain: "from_gain example_fromisoformat solo_gain = Inr solo_trophy"
proof -
  have "getitem solo_gain ''timestamp'' = Inr (PStr ''2024-01-01T00:00:00+00:00'')"
    "getitem solo_gain ''counts'' = Inr (PList (map PInt [5, 13, 18, 0, 0, 0, 0, 0, 0]))"
    "getitem solo_gain ''achievement'' = Inr (PDict (fmap_of_list
         [(''trophyAchievementType'', PStr ''SoloRanking''),
          (''trophySoloRankingAchievementType'', PStr ''SoloTop10'')]))"
    by (simp_all add: solo_gain_def)
  then show ?thesis
    unfolding from_gain_eq_Inr solo_trophy_def
    by (simp add: example_fromisoformat_def lessThan_nat_numeral lessThan_Suc)
      (rule exI [of _ "[5, 13, 18, 0, 0, 0, 0, 0, 0]"], simp)
qed

lemma from_gain_medal_gain: "from_gain example_fromisoformat medal_gain = Inr medal_trophy"
proof -
  have "getitem medal_gain ''timestamp'' = Inr (PStr ''2024-01-02T00:00:00+00:00'')"
    "getitem medal_gain ''counts'' = Inr (PList (map PInt [0, 0, 0, 4, 0, 0, 0, 0, 0]))"
    "getitem medal_gain ''achievement'' = Inr (PDict (fmap_of_list
         [(''trophyAchievementType'', PStr ''SoloMedal'')]))"
    by (simp_all add: medal_gain_def)
  then show ?thesis
    unfolding from_gain_eq_Inr medal_trophy_def
    by (simp add: example_fromisoformat_def lessThan_nat_numeral lessThan_Suc)
      (rule exI [of _ "[0, 0, 0, 4, 0, 0, 0, 0, 0]"], simp)
qed

lemma good_example_page:
  "map (from_gain fromisoformat) gains = map Inr recs \<Longrightarrow>
     good_page fromisoformat (example_page n gains) n recs"
  by (simp add: good_page_def example_page_def)

lemma append_gains_ok:
  "map (from_gain fromisoformat) entries = map Inr recs \<Longrightarrow>
     append_gains fromisoformat entries gains = Inr (gains @ recs)"
proof (induction entries arbitrary: recs gains)
  case Nil
  then show ?case by simp
next
  case (Cons entry entries)
  then obtain r rs where "recs = r # rs" "from_gain fromisoformat entry = Inr r"
    "map (from_gain fromisoformat) entries = map Inr rs"
    by (cases recs) auto
  then show ?case
    by (simp add: Cons.IH)
qed

lemma good_pageD:
  assumes "good_page fromisoformat resp reported recs"
  shows "ok resp"
    "\<exists>body entries. json resp = Some body \<and>
       getitem body ''total'' = Inr (PInt reported) \<and>
       getitem body ''gains'' = Inr (PList entries) \<and>
       map (from_gain fromisoformat) entries = map Inr recs"
  using assms by (auto simp: good_page_def split: option.splits sum.splits pyval.splits)

lemma fetch_loop_good_page:
  assumes "good_page fromisoformat (get page) reported recs"
  shows "fetch_loop fromisoformat get (page # pages) requested gains =
     (if int (length gains + length recs) = reported
      then (requested @ [page], Inr (gains @ recs))
      else fetch_loop fromisoformat get pages (requested @ [page]) (gains @ recs))"
proof -
  from good_pageD [OF assms] obtain body entries where
    "ok (get page)" "json (get page) = Some body"
    "getitem body ''total'' = Inr (PInt reported)"
    "getitem body ''gains'' = Inr (PList entries)"
    "map (from_gain fromisoformat) entries = map Inr recs"
    by blast
  then show ?thesis
    by (simp add: Let_def append_gains_ok len_equals_def)
qed

lemma fetch_loop_match:
  assumes "i \<le> k" and "k < request_limit"
    and "\<forall>p. i \<le> p \<and> p \<le> k \<longrightarrow> good_page fromisoformat (get p) (reported p) (recs p)"
    and "\<forall>j. i \<le> j \<and> j < k \<longrightarrow>
           int (length gains + length (concat (map recs [i..<Suc j]))) \<noteq> reported j"
    and "int (length gains + length (concat (map recs [i..<Suc k]))) = reported k"
  shows "fetch_loop fromisoformat get [i..<request_limit] requested gains =
     (requested @ [i..<Suc k], Inr (gains @ concat (map recs [i..<Suc k])))"
  using assms
proof (induction "k - i" arbitrary: i requested gains)
  case 0
  then have ik: "i = k" by simp
  have upt: "[k..<request_limit] = k # [Suc k..<request_limit]"
    using "0.prems"(2) by (simp add: upt_conv_Cons)
  have good: "good_page fromisoformat (get k) (reported k) (recs k)"
    using "0.prems"(3) ik by simp
  show ?case
    using "0.prems"(5) unfolding ik upt
    by (simp add: fetch_loop_good_page [where get = get and page = k, OF good]
        del: fetch_loop.simps)
next
  case (Suc d)
  then have lt: "i < k" by simp
  then have upt: "[i..<request_limit] = i # [Suc i..<request_limit]"
    using Suc.prems(2) by (simp add: upt_conv_Cons)
  have good: "good_page fromisoformat (get i) (reported i) (recs i)"
    using Suc.prems(3) lt by simp
  have nomatch: "int (length gains + length (recs i)) \<noteq> reported i"
    using Suc.prems(4) lt by (auto dest: spec [of _ i])
  have shift: "length (gains @ recs i) + length (concat (map recs [Suc i..<Suc j]))
        = length gains + length (concat (map recs [i..<Suc j]))" if "i \<le> j" for j
  proof -
    have "[i..<Suc j] = i # [Suc i..<Suc j]"
      using that by (simp add: upt_conv_Cons del: upt_Suc)
    then show ?thesis by simp
  qed
  have IH: "fetch_loop fromisoformat get [Suc i..<request_limit] (requested @ [i])
        (gains @ recs i)
      = ((requested @ [i]) @ [Suc i..<Suc k],
         Inr ((gains @ recs i) @ concat (map recs [Suc i..<Suc k])))"
  proof (rule Suc.hyps(1))
    show "d = k - Suc i" using Suc.hyps(2) by simp
    show "Suc i \<le> k" using lt by simp
    show "k < request_limit" by (rule Suc.prems(2))
    show "\<forall>p. Suc i \<le> p \<and> p \<le> k \<longrightarrow> good_page fromisoformat (get p) (reported p) (recs p)"
      using Suc.prems(3) by simp
    show "\<forall>j. Suc i \<le> j \<and> j < k \<longrightarrow>
           int (length (gains @ recs i) + length (concat (map recs [Suc i..<Suc j])))
             \<noteq> reported j"
      using Suc.prems(4) shift by (metis Suc_leD)
    show "int (length (gains @ recs i) + length (concat (map recs [Suc i..<Suc k])))
            = reported k"
      using Suc.prems(5) shift [of k] lt by simp
  qed
  have "[i..<Suc k] = i # [Suc i..<Suc k]"
    using lt by (simp add: upt_conv_Cons del: upt_Suc)
  then show ?case
    unfolding upt using nomatch IH
    by (simp add: fetch_loop_good_page [where get = get and page = i, OF good]
        del: fetch_loop.simps)
qed

lemma fetch_loop_no_match:
  assumes "\<forall>p. i \<le> p \<and> p < request_limit \<longrightarrow>
             good_page fromisoformat (get p) (reported p) (recs p)"
    and "\<forall>j. i \<le> j \<and> j < request_limit \<longrightarrow>
           int (length gains + length (concat (map recs [i..<Suc j]))) \<noteq> reported j"
  shows "fetch_loop fromisoformat get [i..<request_limit] requested gains =
     (requested @ [i..<request_limit], Inr (gains @ concat (map recs [i..<request_limit])))"
  using assms
proof (induction "request_limit - i" arbitrary: i requested gains)
  case 0
  then show ?case by simp
next
  case (Suc d)
  then have lt: "i < request_limit" by simp
  then have upt: "[i..<request_limit] = i # [Suc i..<request_limit]"
    by (simp add: upt_conv_Cons)
  have good: "good_page fromisoformat (get i) (reported i) (recs i)"
    using Suc.prems(1) lt by simp
  have nomatch: "int (length gains + length (recs i)) \<noteq> reported i"
    using Suc.prems(2) lt by (auto dest: spec [of _ i])
  have shift: "length (gains @ recs i) + length (concat (map recs [Suc i..<Suc j]))
        = length gains + length (concat (map recs [i..<Suc j]))" if "i \<le> j" for j
  proof -
    have "[i..<Suc j] = i # [Suc i..<Suc j]"
      using that by (simp add: upt_conv_Cons del: upt_Suc)
    then show ?thesis by simp
  qed
  have IH: "fetch_loop fromisoformat get [Suc i..<request_limit] (requested @ [i])
        (gains @ recs i)
      = ((requested @ [i]) @ [Suc i..<request_limit],
         Inr ((gains @ recs i) @ concat (map recs [Suc i..<request_limit])))"
  proof (rule Suc.hyps(1))
    show "d = request_limit - Suc i" using Suc.hyps(2) by simp
    show "\<forall>p. Suc i \<le> p \<and> p < request_limit \<longrightarrow>
            good_page fromisoformat (get p) (reported p) (recs p)"
      using Suc.prems(1) by simp
    show "\<forall>j. Suc i \<le> j \<and> j < request_limit \<longrightarrow>
           int (length (gains @ recs i) + length (concat (map recs [Suc i..<Suc j])))
             \<noteq> reported j"
      using Suc.prems(2) shift by (metis Suc_leD)
  qed
  show ?case
    unfolding upt using nomatch IH
    by (simp add: fetch_loop_good_page [where get = get and page = i, OF good]
        del: fetch_loop.simps)
qed

text \<open>
  C8. Let the provider answer the pages \<open>0, \<dots>, k\<close> (with \<open>k\<close> below the maximum page
  count) successfully, page \<open>p\<close> carrying the total \<open>reported p\<close> and a batch of gains that
  decode to the records \<open>recs p\<close>. If \<open>k\<close> is the first page after which the number of
  accumulated records equals the reported total, the fetcher requests exactly the pages
  \<open>0, \<dots>, k\<close>, in this order, and returns all their records: no page after \<open>k\<close> is
  requested, and only page 0 when the counts match there. If the counts never match, it
  requests every page below the maximum page count and returns all the records.
\<close>

theorem get_trophies_stops_at_match:
  "(k < request_limit \<and>
    (\<forall>p\<le>k. good_page fromisoformat (get p) (reported p) (recs p)) \<and>
    (\<forall>j<k. int (length (concat (map recs [0..<Suc j]))) \<noteq> reported j) \<and>
    int (length (concat (map recs [0..<Suc k]))) = reported k \<longrightarrow>
      get_trophies fromisoformat get request_limit
        = ([0..<Suc k], Inr (concat (map recs [0..<Suc k]))))
   \<and> ((\<forall>p<request_limit. good_page fromisoformat (get p) (reported p) (recs p)) \<and>
       (\<forall>j<request_limit. int (length (concat (map recs [0..<Suc j]))) \<noteq> reported j) \<longrightarrow>
         get_trophies fromisoformat get request_limit
           = ([0..<request_limit], Inr (concat (map recs [0..<request_limit]))))
   \<and> (0 < request_limit \<and>
       good_page fromisoformat (get 0) (int (length recs0)) recs0 \<longrightarrow>
         get_trophies fromisoformat get request_limit = ([0], Inr recs0))"
proof (intro conjI impI)
  assume h: "k < request_limit \<and>
    (\<forall>p\<le>k. good_page fromisoformat (get p) (reported p) (recs p)) \<and>
    (\<forall>j<k. int (length (concat (map recs [0..<Suc j]))) \<noteq> reported j) \<and>
    int (length (concat (map recs [0..<Suc k]))) = reported k"
  have "fetch_loop fromisoformat get [0..<request_limit] [] [] =
     ([] @ [0..<Suc k], Inr ([] @ concat (map recs [0..<Suc k])))"
    by (rule fetch_loop_match [where reported = reported and recs = recs])
      (use h in auto)
  then show "get_trophies fromisoformat get request_limit
        = ([0..<Suc k], Inr (concat (map recs [0..<Suc k])))"
    by (simp add: get_trophies_def)
next
  assume h: "(\<forall>p<request_limit. good_page fromisoformat (get p) (reported p) (recs p)) \<and>
       (\<forall>j<request_limit. int (length (concat (map recs [0..<Suc j]))) \<noteq> reported j)"
  have "fetch_loop fromisoformat get [0..<request_limit] [] [] =
     ([] @ [0..<request_limit], Inr ([] @ concat (map recs [0..<request_limit])))"
    by (rule fetch_loop_no_match [where reported = reported and recs = recs])
      (use h in auto)
  then show "get_trophies fromisoformat get request_limit
           = ([0..<request_limit], Inr (concat (map recs [0..<request_limit])))"
    by (simp add: get_trophies_def)
next
  assume h: "0 < request_limit \<and>
       good_page fromisoformat (get 0) (int (length recs0)) recs0"
  have "fetch_loop fromisoformat get [0..<request_limit] [] [] =
     ([] @ [0..<Suc 0], Inr ([] @ concat (map (\<lambda>p. recs0) [0..<Suc 0])))"
    by (rule fetch_loop_match [where reported = "\<lambda>p. int (length recs0)"])
      (use h in simp_all)
  then show "get_trophies fromisoformat get request_limit = ([0], Inr recs0)"
    by (simp add: get_trophies_def)
qed

theorem get_trophies_stops_at_match_witness:
  "get_trophies example_fromisoformat two_pages default_request_limit
     = ([0, 1], Inr [solo_trophy, medal_trophy])
   \<and> get_trophies example_fromisoformat (\<lambda>page. example_page 1 [solo_gain])
       default_request_limit
     = ([0], Inr [solo_trophy])
   \<and> get_trophies example_fromisoformat (\<lambda>page. example_page 5 [solo_gain]) 3
     = ([0, 1, 2], Inr [solo_trophy, solo_trophy, solo_trophy])"
proof (intro conjI)
  have good: "\<forall>p\<le>1. good_page example_fromisoformat (two_pages p) 2
               (if p = 0 then [solo_trophy] else [medal_trophy])"
    by (auto simp: two_pages_def le_Suc_eq from_gain_solo_gain from_gain_medal_gain
        intro!: good_example_page)
  show "get_trophies example_fromisoformat two_pages default_request_limit
     = ([0, 1], Inr [solo_trophy, medal_trophy])"
    using good get_trophies_stops_at_match
      [of 1 default_request_limit example_fromisoformat two_pages "\<lambda>p. 2"
          "\<lambda>p. if p = 0 then [solo_trophy] else [medal_trophy]"]
    by (simp add: default_request_limit_def upt_rec)
  have good1: "good_page example_fromisoformat (example_page 1 [solo_gain])
                 (int (length [solo_trophy])) [solo_trophy]"
    by (simp add: good_example_page from_gain_solo_gain)
  show "get_trophies example_fromisoformat (\<lambda>page. example_page 1 [solo_gain])
       default_request_limit
     = ([0], Inr [solo_trophy])"
    using good1 get_trophies_stops_at_match
      [of _ default_request_limit example_fromisoformat
          "\<lambda>page. example_page 1 [solo_gain]" _ _ "[solo_trophy]"]
    by (simp add: default_request_limit_def)
  have good5: "good_page example_fromisoformat (example_page 5 [solo_gain]) 5 [solo_trophy]"
    by (simp add: good_example_page from_gain_solo_gain)
  show "get_trophies example_fromisoformat (\<lambda>page. example_page 5 [solo_gain]) 3
     = ([0, 1, 2], Inr [solo_trophy, solo_trophy, solo_trophy])"
    using good5 get_trophies_stops_at_match
      [of _ 3 example_fromisoformat "\<lambda>page. example_page 5 [solo_gain]" "\<lambda>p. 5"
          "\<lambda>p. [solo_trophy]"]
    by (simp add: upt_rec less_Suc_eq numeral_3_eq_3)
qed





section \<open>Properties of the cache\<close>

lemma getitem_asdict:
  "getitem (asdict t) ''timestamp'' = Inr (PTime (timestamp t))"
  "getitem (asdict t) ''achievement_type'' = Inr (PStr (achievement_type t))"
  "getitem (asdict t) ''count'' = Inr (PInt (count t))"
  "getitem (asdict t) ''data'' = Inr (data t)"
  by (simp_all add: asdict_def)

lemma TrophyData_kwargs_asdict: "TrophyData_kwargs (asdict t) = Inr t"
  by (simp add: TrophyData_kwargs_def asdict_def)

lemma trophies_of_dicts_asdict: "trophies_of_dicts (map asdict ts) = Inr ts"
  by (induction ts) (simp_all add: TrophyData_kwargs_asdict)

lemma player_of_yaml_asdict: "player_of_yaml (PList (map asdict ts)) = Inr ts"
  by (simp add: player_of_yaml_def trophies_of_dicts_asdict)

lemma trophy_results_of_yaml_yamlified:
  "trophy_results_of_yaml (yamlified trophy_results) = Inr trophy_results"
proof -
  have "fmmap (\<lambda>player_data. projr (player_of_yaml player_data))
          (fmmap (\<lambda>player_trophies. PList (map asdict player_trophies)) trophy_results)
        = fmmap (\<lambda>ts. ts) trophy_results"
    unfolding fmap.map_comp by (simp add: comp_def player_of_yaml_asdict)
  moreover have "fmpred (\<lambda>player player_data. \<not> isl (player_of_yaml player_data))
          (fmmap (\<lambda>player_trophies. PList (map asdict player_trophies)) trophy_results)"
    by (auto simp: player_of_yaml_asdict intro: fmpredI)
  ultimately show ?thesis
    by (simp add: trophy_results_of_yaml_def yamlified_def fmap.map_ident)
qed

text \<open>
  C4. For every map from players to lists of trophy records, writing the cache and reading
  it back gives the same map: for every player, records equal to the originals in every
  field (\<open>timestamp\<close>, \<open>achievement_type\<close>, \<open>count\<close>, \<open>data\<close>). The written value holds,
  for every player, the dictionary of all four declared fields of every record, and the
  constructor rebuilds the record from that dictionary. PyYAML is a parameter: what is
  required of it is that loading the text it dumped for this value gives the value back.
\<close>

theorem cache_round_trip:
  "(yaml_safe_load (yaml_dump (yamlified trophy_results)) = yamlified trophy_results \<longrightarrow>
      read_cache yaml_safe_load (write_cache yaml_dump trophy_results) = Inr trophy_results)
   \<and> (fmlookup trophy_results player = Some trophies \<longrightarrow>
        getitem (yamlified trophy_results) player = Inr (PList (map asdict trophies)))
   \<and> getitem (asdict trophy) ''timestamp'' = Inr (PTime (timestamp trophy))
   \<and> getitem (asdict trophy) ''achievement_type'' = Inr (PStr (achievement_type trophy))
   \<and> getitem (asdict trophy) ''count'' = Inr (PInt (count trophy))
   \<and> getitem (asdict trophy) ''data'' = Inr (data trophy)
   \<and> TrophyData_kwargs (asdict trophy) = Inr trophy"
proof (intro conjI impI)
  assume "yaml_safe_load (yaml_dump (yamlified trophy_results)) = yamlified trophy_results"
  then show "read_cache yaml_safe_load (write_cache yaml_dump trophy_results)
      = Inr trophy_results"
    by (simp add: read_cache_def write_cache_def trophy_results_of_yaml_yamlified)
next
  assume "fmlookup trophy_results player = Some trophies"
  then show "getitem (yamlified trophy_results) player = Inr (PList (map asdict trophies))"
    by (simp add: yamlified_def)
qed (simp_all add: getitem_asdict TrophyData_kwargs_asdict)

theorem cache_round_trip_witness:
  "read_cache (\<lambda>cache_text. cache_text) (write_cache (\<lambda>v. v) example_results)
     = Inr example_results
   \<and> getitem (yamlified example_results) ''jmal''
       = Inr (PList [asdict solo_trophy, asdict medal_trophy])"
  using cache_round_trip
    [of "\<lambda>cache_text. cache_text" "\<lambda>v. v" example_results "''jmal''"
        "[solo_trophy, medal_trophy]"]
  by (simp add: example_results_def)

end
